theory Spec2Isabelle
  imports Complex_Main "HOL-Library.AList" "HOL-Library.List_Lexorder" "HOL-Library.Log_Nat"
begin

chapter \<open>The embedding of the source\<close>

section \<open>Text and tokens\<close>

text \<open>
  A Python \<open>str\<close> is a sequence of Unicode code points. A code point is a natural
  number and a text is a list of them; the order on texts is the lexicographic order of
  the code points, which is the order Python's \<open>sorted\<close> uses on strings.
\<close>

type_synonym codepoint = nat
type_synonym pystr = "codepoint list"

text \<open>
  \<open>re.findall(r'\b\w+\b', s)\<close> scans \<open>s\<close> from left to right. A match starts at the first
  position where \<open>\b\<close> holds and a word character follows, that is at the first word
  character after the previous match; \<open>\w+\<close> is greedy and takes the whole run of word
  characters, after which \<open>\b\<close> holds, so the first attempt succeeds. The scan goes on
  behind the run. The class \<open>\w\<close> of the Unicode database is the parameter \<open>is_word\<close>.
\<close>

function findall_words :: "(codepoint \<Rightarrow> bool) \<Rightarrow> pystr \<Rightarrow> pystr list" where
  "findall_words is_word s =
     (case dropWhile (\<lambda>c. \<not> is_word c) s of
        [] \<Rightarrow> []
      | c # cs \<Rightarrow> takeWhile is_word (c # cs) # findall_words is_word (dropWhile is_word (c # cs)))"
  by pat_completeness auto
termination
proof (relation "measure (\<lambda>(is_word, s). length s)")
  show "wf (measure (\<lambda>(is_word, s). length s))" by simp
next
  fix is_word :: "codepoint \<Rightarrow> bool" and s :: pystr and c cs
  assume eq: "dropWhile (\<lambda>c. \<not> is_word c) s = c # cs"
  have w: "is_word c" using hd_dropWhile [of "\<lambda>c. \<not> is_word c" s] eq by simp
  have "length (dropWhile is_word (c # cs)) \<le> length cs" using w
    by (simp add: length_dropWhile_le)
  also have "length cs < length (dropWhile (\<lambda>c. \<not> is_word c) s)" by (simp add: eq)
  also have "\<dots> \<le> length s" by (rule length_dropWhile_le)
  finally show "((is_word, dropWhile is_word (c # cs)), (is_word, s))
      \<in> measure (\<lambda>(is_word, s). length s)" by simp
qed

declare findall_words.simps [simp del]

subsection \<open>The token counter\<close>

text \<open>
  \<open>Counter(tokens)\<close> is a dictionary from token to number of occurrences. A Python
  dictionary keeps its keys in the order of their first insertion, so it is an
  association list: a key that is present is updated in place, a new key goes to the end.
\<close>

type_synonym counter = "(pystr \<times> nat) list"

definition counter_get :: "counter \<Rightarrow> pystr \<Rightarrow> nat \<Rightarrow> nat" where
  \<comment> \<open>\<open>freqs.get(word, dflt)\<close>\<close>
  "counter_get freqs word dflt = (case map_of freqs word of None \<Rightarrow> dflt | Some n \<Rightarrow> n)"

definition counter_incr :: "pystr \<Rightarrow> counter \<Rightarrow> counter" where
  \<comment> \<open>one step of the counting loop: \<open>freqs[elem] = freqs.get(elem, 0) + 1\<close>\<close>
  "counter_incr elem freqs = AList.update elem (counter_get freqs elem 0 + 1) freqs"

definition Counter :: "pystr list \<Rightarrow> counter" where
  "Counter tokens = fold counter_incr tokens []"

definition keys :: "counter \<Rightarrow> pystr list" where
  "keys freqs = map fst freqs"

subsection \<open>Bag-of-words vectorization\<close>

text \<open>
  \<open>text_to_vector(text, vocab=None)\<close> of \<open>test_google.py\<close>. The arguments \<open>lower\<close> and
  \<open>is_word\<close> stand for \<open>str.lower\<close> and the class \<open>\w\<close>, both given by the Unicode
  database of the interpreter. The vocabulary is \<open>None\<close> or a list of terms. A vector is
  a list of floats; the float of a count is the count itself.
\<close>

definition text_to_vector ::
  "(pystr \<Rightarrow> pystr) \<Rightarrow> (codepoint \<Rightarrow> bool) \<Rightarrow> pystr \<Rightarrow> pystr list option \<Rightarrow> real list \<times> pystr list" where
  "text_to_vector lower is_word txt vocab =
     (let tokens = findall_words is_word (lower txt);
          freqs = Counter tokens;
          vocab' = (case vocab of None \<Rightarrow> sort (keys freqs) | Some v \<Rightarrow> v);
          vector = map (\<lambda>word. real (counter_get freqs word 0)) vocab'
      in (vector, vocab'))"

text \<open>The ASCII part of the two Unicode tables, for running the functions on examples.\<close>

definition ascii_word :: "codepoint \<Rightarrow> bool" where
  "ascii_word c \<longleftrightarrow> (48 \<le> c \<and> c \<le> 57) \<or> (65 \<le> c \<and> c \<le> 90) \<or> c = 95 \<or> (97 \<le> c \<and> c \<le> 122)"

definition ascii_lower :: "pystr \<Rightarrow> pystr" where
  "ascii_lower s = map (\<lambda>c. if 65 \<le> c \<and> c \<le> 90 then c + 32 else c) s"

definition codepoints :: "string \<Rightarrow> pystr" where
  "codepoints s = map of_char s"

section \<open>Cosine similarity\<close>

text \<open>
  The errors the functions below can raise. \<open>math.sqrt\<close> raises \<open>ValueError\<close> on a
  negative argument and \<open>/\<close> raises \<open>ZeroDivisionError\<close> on a zero divisor.

  The function is embedded twice. Here the floats are the real numbers they denote and
  \<open>1e-8\<close> is \<open>1 / 10 ^ 8\<close>: this reading shows which entries enter which sum. The next
  section is the function on IEEE doubles, with rounding, overflow and NaN.
\<close>

datatype py_error = ValueError | ZeroDivisionError | TypeError | AttributeError

definition py_sum :: "real list \<Rightarrow> real" where
  \<comment> \<open>\<open>sum(iterable)\<close>: starts at 0 and adds the items from left to right\<close>
  "py_sum xs = fold (\<lambda>x acc. acc + x) xs 0"

definition math_sqrt :: "real \<Rightarrow> py_error + real" where
  "math_sqrt x = (if x < 0 then Inl ValueError else Inr (sqrt x))"

definition truediv :: "real \<Rightarrow> real \<Rightarrow> py_error + real" where
  "truediv a b = (if b = 0 then Inl ZeroDivisionError else Inr (a / b))"

text \<open>\<open>cosine_similarity(v1, v2)\<close> of \<open>test_google.py\<close>, statement by statement.\<close>

definition cosine_similarity :: "real list \<Rightarrow> real list \<Rightarrow> py_error + real" where
  "cosine_similarity v1 v2 =
     (let dot = py_sum (map (\<lambda>(a, b). a * b) (zip v1 v2)) in
      case math_sqrt (py_sum (map (\<lambda>a. a * a) v1)) of
        Inl e \<Rightarrow> Inl e
      | Inr norm1 \<Rightarrow>
          (case math_sqrt (py_sum (map (\<lambda>b. b * b) v2)) of
             Inl e \<Rightarrow> Inl e
           | Inr norm2 \<Rightarrow> truediv dot (norm1 * norm2 + 1 / 10 ^ 8)))"

section \<open>Cosine similarity on IEEE doubles\<close>


definition valof :: "int \<Rightarrow> int \<Rightarrow> real" where
  "valof m e = (if 0 \<le> e then real_of_int m * 2 ^ nat e else real_of_int m / 2 ^ nat (- e))"


















section \<open>The record sent to the collection\<close>

text \<open>
  \<open>str(n)\<close> for an integer, as the f-string of \<open>main\<close> formats the hash: decimal digits,
  with a leading minus sign (code point 45) for a negative number.
\<close>

function digits10 :: "nat \<Rightarrow> pystr" where
  "digits10 n = (if n < 10 then [48 + n] else digits10 (n div 10) @ [48 + n mod 10])"
  by pat_completeness auto
termination
  by (relation "measure id") auto

declare digits10.simps [simp del]

definition str_int :: "int \<Rightarrow> pystr" where
  "str_int i = (if i < 0 then 45 # digits10 (nat (- i)) else digits10 (nat i))"

definition entry_id :: "pystr \<Rightarrow> int \<Rightarrow> pystr" where
  \<comment> \<open>\<open>f"{stem}_{hash}"\<close>; 95 is the underscore\<close>
  "entry_id stem h = stem @ [95] @ str_int h"

text \<open>
  The end of \<open>main\<close> in \<open>test_google.py\<close>: the vector of the response, the id of the
  entry and the arguments of \<open>collection.add\<close>. The collection is an object of the
  chromadb library; what it does with the request is not code of this program.
  \<open>path_stem\<close> is \<open>Path(p).stem\<close> and \<open>py_hash\<close> is the built-in \<open>hash\<close> of the running
  interpreter, which salts the hash of a \<open>str\<close> with a value chosen at start-up.
\<close>

record add_request =
  documents :: "pystr list"
  metadatas :: "(pystr \<times> pystr) list list"
  ids :: "pystr list"
  embeddings :: "real list list"

definition ingest ::
  "(pystr \<Rightarrow> pystr) \<Rightarrow> (codepoint \<Rightarrow> bool) \<Rightarrow> (pystr \<Rightarrow> pystr) \<Rightarrow> (pystr \<Rightarrow> int) \<Rightarrow>
   pystr \<Rightarrow> pystr \<Rightarrow> add_request" where
  "ingest lower is_word path_stem py_hash pdf_path response =
     (let (vector, vocab) = text_to_vector lower is_word response None;
          entry = entry_id (path_stem pdf_path) (py_hash response)
      in \<lparr> documents = [response],
           metadatas = [[(codepoints ''source'', pdf_path)]],
           ids = [entry],
           embeddings = [vector] \<rparr>)"

section \<open>The call of the vectorizer on a store of objects\<close>

text \<open>
  Python passes references. The store is the list of the objects allocated so far, a
  reference is an index into it, and a new object goes to the end. The call reads the
  text and the vocabulary through their references, allocates the sorted vocabulary
  (when none was given) and the vector, and returns references: to the new vector, and
  to the vocabulary, which is the caller's own object when one was given.
\<close>

datatype pyobj = StrObj pystr | StrListObj "pystr list" | FloatListObj "real list"

type_synonym ref = nat
type_synonym heap = "pyobj list"

definition lookup :: "heap \<Rightarrow> ref \<Rightarrow> pyobj option" where
  "lookup h r = (if r < length h then Some (h ! r) else None)"

definition alloc :: "heap \<Rightarrow> pyobj \<Rightarrow> heap \<times> ref" where
  "alloc h obj = (h @ [obj], length h)"

text \<open>
  The comprehension \<open>[float(freqs.get(word, 0)) for word in vocab]\<close> iterates whatever
  object it is given and checks nothing: a list of strings gives its terms, a string
  gives its characters as one-character strings, and a float in a list of floats is
  equal to no key of the counter, so it counts 0.
\<close>

definition vector_over :: "counter \<Rightarrow> pyobj \<Rightarrow> real list" where
  "vector_over freqs vocab =
     (case vocab of
        StrListObj v \<Rightarrow> map (\<lambda>word. real (counter_get freqs word 0)) v
      | StrObj s \<Rightarrow> map (\<lambda>c. real (counter_get freqs [c] 0)) s
      | FloatListObj fs \<Rightarrow> map (\<lambda>x. 0) fs)"

text \<open>
  A text that is not a \<open>str\<close> has no method \<open>lower\<close>. A reference that points outside
  the store does not occur in Python; the model gives it an error as well.
\<close>

definition text_to_vector_call ::
  "(pystr \<Rightarrow> pystr) \<Rightarrow> (codepoint \<Rightarrow> bool) \<Rightarrow> heap \<Rightarrow> ref \<Rightarrow> ref option \<Rightarrow>
   py_error + (heap \<times> ref \<times> ref)" where
  "text_to_vector_call lower is_word h text_ref vocab_ref =
     (case lookup h text_ref of
        Some (StrObj txt) \<Rightarrow>
          (let tokens = findall_words is_word (lower txt);
               freqs = Counter tokens
           in case vocab_ref of
                None \<Rightarrow>
                  (let (h1, vocab) = alloc h (StrListObj (sort (keys freqs)));
                       (h2, vector) = alloc h1 (FloatListObj
                          (vector_over freqs (StrListObj (sort (keys freqs)))))
                   in Inr (h2, vector, vocab))
              | Some vocab \<Rightarrow>
                  (case lookup h vocab of
                     Some obj \<Rightarrow>
                       (let (h1, vector) = alloc h (FloatListObj (vector_over freqs obj))
                        in Inr (h1, vector, vocab))
                   | None \<Rightarrow> Inl TypeError))
      | _ \<Rightarrow> Inl AttributeError)"

text \<open>The value of the vocabulary argument in a store: \<open>None\<close>, or the list it refers to.\<close>

definition vocab_value :: "heap \<Rightarrow> ref option \<Rightarrow> pystr list option option" where
  "vocab_value h vocab_ref =
     (case vocab_ref of
        None \<Rightarrow> Some None
      | Some r \<Rightarrow> (case lookup h r of Some (StrListObj v) \<Rightarrow> Some (Some v) | _ \<Rightarrow> None))"

text \<open>Reading a decimal numeral back, used to show that \<open>str_int\<close> is injective.\<close>

fun value10 :: "nat \<Rightarrow> pystr \<Rightarrow> nat" where
  "value10 acc [] = acc"
| "value10 acc (d # ds) = value10 (10 * acc + (d - 48)) ds"

chapter \<open>Properties\<close>

section \<open>The tokenizer and the counter\<close>

lemma findall_words_Cons:
  assumes "dropWhile (\<lambda>c. \<not> is_word c) s = c # cs"
  shows "findall_words is_word s =
     takeWhile is_word (c # cs) # findall_words is_word (dropWhile is_word (c # cs))"
  by (subst findall_words.simps) (simp only: assms list.case)

lemma findall_words_none:
  assumes "dropWhile (\<lambda>c. \<not> is_word c) s = []"
  shows "findall_words is_word s = []"
  by (subst findall_words.simps) (simp only: assms list.case)

lemma findall_words_tokens:
  "t \<in> set (findall_words is_word s) \<Longrightarrow> t \<noteq> [] \<and> (\<forall>c\<in>set t. is_word c)"
proof (induction is_word s rule: findall_words.induct)
  case (1 is_word s)
  show ?case
  proof (cases "dropWhile (\<lambda>c. \<not> is_word c) s")
    case Nil
    with "1.prems" show ?thesis by (simp add: findall_words_none)
  next
    case (Cons c cs)
    have "hd (dropWhile (\<lambda>c. \<not> is_word c) s) = c" by (simp add: Cons)
    moreover have "\<not> \<not> is_word (hd (dropWhile (\<lambda>c. \<not> is_word c) s))"
      by (rule hd_dropWhile) (simp add: Cons)
    ultimately have w: "is_word c" by simp
    from "1.prems" have "t \<in> set (takeWhile is_word (c # cs) # findall_words is_word (dropWhile is_word (c # cs)))"
      by (simp only: findall_words_Cons [OF Cons])
    then have "t = takeWhile is_word (c # cs) \<or>
          t \<in> set (findall_words is_word (dropWhile is_word (c # cs)))"
      by simp
    then show ?thesis
    proof
      assume t: "t = takeWhile is_word (c # cs)"
      have "\<forall>x\<in>set (takeWhile is_word (c # cs)). is_word x"
        by (blast dest: set_takeWhileD)
      moreover have "takeWhile is_word (c # cs) \<noteq> []" using w by simp
      ultimately show ?thesis using t by simp
    next
      assume "t \<in> set (findall_words is_word (dropWhile is_word (c # cs)))"
      then show ?thesis by (rule "1.IH" [OF Cons])
    qed
  qed
qed

lemma counter_get_fold_incr:
  "distinct (map fst acc) \<Longrightarrow>
   counter_get (fold counter_incr ts acc) w 0 = counter_get acc w 0 + count_list ts w"
  by (induction ts arbitrary: acc)
     (auto simp: counter_incr_def counter_get_def AList.update_conv' AList.distinct_update
           split: option.splits)

lemma keys_fold_incr: "set (keys (fold counter_incr ts acc)) = set (keys acc) \<union> set ts"
  by (induction ts arbitrary: acc) (auto simp: counter_incr_def keys_def AList.dom_update)

lemma distinct_fold_incr:
  "distinct (map fst acc) \<Longrightarrow> distinct (keys (fold counter_incr ts acc))"
  by (induction ts arbitrary: acc) (auto simp: counter_incr_def keys_def AList.distinct_update)

lemma counter_get_Counter: "counter_get (Counter ts) w 0 = count_list ts w"
  using counter_get_fold_incr [of "[]" ts w] by (simp add: Counter_def counter_get_def)

lemma set_keys_Counter: "set (keys (Counter ts)) = set ts"
  using keys_fold_incr [of ts "[]"] by (simp add: Counter_def keys_def)

lemma distinct_keys_Counter: "distinct (keys (Counter ts))"
  using distinct_fold_incr [of "[]" ts] by (simp add: Counter_def)

lemma sort_keys_Counter: "sort (keys (Counter ts)) = sort (remdups ts)"
proof -
  have "sorted_list_of_set (set (keys (Counter ts))) = sort (keys (Counter ts))"
    using distinct_keys_Counter [of ts]
    by (simp add: sorted_list_of_set_sort_remdups distinct_remdups_id)
  then show ?thesis by (simp add: set_keys_Counter sorted_list_of_set_sort_remdups)
qed

text \<open>Rules that run the tokenizer on a concrete text.\<close>

lemma findall_words_Nil: "findall_words is_word [] = []"
  by (simp add: findall_words.simps)

lemma findall_words_skip:
  "\<not> is_word c \<Longrightarrow> findall_words is_word (c # cs) = findall_words is_word cs"
  by (simp add: findall_words.simps [of is_word "c # cs"] findall_words.simps [of is_word cs])

lemma findall_words_take:
  "is_word c \<Longrightarrow> findall_words is_word (c # cs) =
     takeWhile is_word (c # cs) # findall_words is_word (dropWhile is_word cs)"
  by (simp add: findall_words.simps [of is_word "c # cs"])

lemmas findall_words_run = findall_words_Nil findall_words_skip findall_words_take

section \<open>The vectorizer\<close>

text \<open>
  Claim C1. With a vocabulary \<open>V\<close> supplied, \<open>text_to_vector\<close> returns \<open>V\<close> itself,
  unchanged, and a vector as long as \<open>V\<close>; the entry for a term of \<open>V\<close> is the number of
  times the term occurs among the tokens of the lowercased text, and 0 for a term that
  does not occur. The result depends on the text only through the counts of the terms
  of \<open>V\<close>: tokens outside \<open>V\<close> contribute nothing.
\<close>

theorem text_to_vector_vocab_supplied:
  "text_to_vector lower is_word T (Some V) =
     (map (\<lambda>w. if w \<in> set (findall_words is_word (lower T))
                 then real (count_list (findall_words is_word (lower T)) w) else 0) V, V)
   \<and> length (fst (text_to_vector lower is_word T (Some V))) = length V"
proof -
  have "real (count_list ts w) = (if w \<in> set ts then real (count_list ts w) else 0)"
    for ts :: "pystr list" and w
    by (simp add: count_list_0_iff)
  then show ?thesis
    unfolding text_to_vector_def Let_def counter_get_Counter by simp
qed

text \<open>
  The vocabulary of the specification's example, and the query "Strength density, steel":
  two terms of the vocabulary occur once, "steel" is dropped.
\<close>

theorem text_to_vector_vocab_supplied_witness:
  "text_to_vector ascii_lower ascii_word (codepoints ''Strength density, steel'')
     (Some [codepoints ''alloy'', codepoints ''corrosion'', codepoints ''density'',
            codepoints ''strength''])
   = ([0, 0, 1, 1],
      [codepoints ''alloy'', codepoints ''corrosion'', codepoints ''density'',
       codepoints ''strength''])"
  using text_to_vector_vocab_supplied [of ascii_lower ascii_word
    "codepoints ''Strength density, steel''"
    "[codepoints ''alloy'', codepoints ''corrosion'', codepoints ''density'',
      codepoints ''strength'']"]
  by (simp add: findall_words_run ascii_word_def ascii_lower_def codepoints_def)

text \<open>
  Claim C5. With no vocabulary supplied, the vocabulary returned is the sorted sequence
  of the distinct tokens of the text: the tokens are the runs of word characters of the
  lowercased text, the sequence is strictly increasing in the code-point order of
  strings, and the vector lists the number of occurrences of each of them, in that order.
\<close>

theorem text_to_vector_no_vocab:
  "text_to_vector lower is_word T None =
     (map (\<lambda>w. real (count_list (findall_words is_word (lower T)) w))
          (sort (remdups (findall_words is_word (lower T)))),
      sort (remdups (findall_words is_word (lower T))))
   \<and> sorted_wrt (<) (snd (text_to_vector lower is_word T None))
   \<and> set (snd (text_to_vector lower is_word T None)) = set (findall_words is_word (lower T))"
  unfolding text_to_vector_def Let_def counter_get_Counter sort_keys_Counter
  by (simp add: strict_sorted_iff)

theorem text_to_vector_no_vocab_witness:
  "text_to_vector ascii_lower ascii_word (codepoints ''b_1 A, b_1!'') None
   = ([1, 2], [codepoints ''a'', codepoints ''b_1''])"
  using text_to_vector_no_vocab [of ascii_lower ascii_word "codepoints ''b_1 A, b_1!''"]
  by (simp add: findall_words_run ascii_word_def ascii_lower_def codepoints_def)

section \<open>Cosine similarity\<close>

lemma py_sum_sum_list: "py_sum xs = sum_list xs"
proof -
  have "fold (\<lambda>x acc. acc + x) xs s = s + sum_list xs" for s :: real
    by (induction xs arbitrary: s) simp_all
  then show ?thesis by (simp add: py_sum_def)
qed

lemma sum_squares_nonneg: "0 \<le> sum_list (map (\<lambda>a. a * a) v)" for v :: "real list"
  by (induction v) simp_all

text \<open>
  Neither square root is taken of a negative number and the divisor is at least
  \<open>1e-8\<close>, so no branch of \<open>cosine_similarity\<close> that raises is ever taken.
\<close>

lemma cosine_similarity_value:
  "cosine_similarity v1 v2 =
     Inr (sum_list (map (\<lambda>(a, b). a * b) (zip v1 v2)) /
          (sqrt (sum_list (map (\<lambda>a. a * a) v1)) * sqrt (sum_list (map (\<lambda>b. b * b) v2))
           + 1 / 10 ^ 8))"
proof -
  have n1: "0 \<le> sum_list (map (\<lambda>a. a * a) v1)" and n2: "0 \<le> sum_list (map (\<lambda>a. a * a) v2)"
    by (rule sum_squares_nonneg)+
  have "0 \<le> sqrt (sum_list (map (\<lambda>a. a * a) v1)) * sqrt (sum_list (map (\<lambda>b. b * b) v2))"
    using n1 n2 by simp
  then have "sqrt (sum_list (map (\<lambda>a. a * a) v1)) * sqrt (sum_list (map (\<lambda>b. b * b) v2))
      + 1 / 10 ^ 8 \<noteq> 0"
    by simp
  then show ?thesis using n1 n2
    by (simp add: cosine_similarity_def py_sum_sum_list math_sqrt_def truediv_def Let_def
        not_less [symmetric])
qed

lemma sum_list_zip_nth:
  "sum_list (map (\<lambda>(a, b). a * b) (zip v1 v2)) =
     (\<Sum>i<min (length v1) (length v2). v1 ! i * v2 ! i)" for v1 v2 :: "real list"
proof -
  have "sum_list (map (\<lambda>(a, b). a * b) (zip v1 v2)) =
      (\<Sum>i<length (zip v1 v2). (\<lambda>(a, b). a * b) (zip v1 v2 ! i))"
    by (simp add: sum_list_sum_nth atLeast0LessThan)
  also have "\<dots> = (\<Sum>i<min (length v1) (length v2). v1 ! i * v2 ! i)"
    by (rule sum.cong) simp_all
  finally show ?thesis .
qed

lemma sum_list_sq_nth: "sum_list (map (\<lambda>a. a * a) v) = (\<Sum>i<length v. (v ! i)\<^sup>2)"
  for v :: "real list"
  by (simp add: sum_list_sum_nth atLeast0LessThan power2_eq_square)

text \<open>
  Claim C10. \<open>cosine_similarity\<close> returns a score for every pair of vectors, of equal
  length or not. The dot product runs over the pairs of \<open>zip\<close>, that is over the indices
  below the shorter length; each norm runs over the whole of its vector.
\<close>

theorem cosine_similarity_total:
  "cosine_similarity v1 v2 =
     Inr ((\<Sum>i<min (length v1) (length v2). v1 ! i * v2 ! i) /
          (sqrt (\<Sum>i<length v1. (v1 ! i)\<^sup>2) * sqrt (\<Sum>i<length v2. (v2 ! i)\<^sup>2) + 1 / 10 ^ 8))"
  by (simp only: cosine_similarity_value sum_list_zip_nth sum_list_sq_nth)

text \<open>
  Lengths 3 and 1: the entries 4 and 12 of the longer vector are in its norm 13 but
  not in the dot product.
\<close>

theorem cosine_similarity_total_witness:
  "cosine_similarity [3, 4, 12] [2] = Inr (6 / (13 * 2 + 1 / 10 ^ 8))"
proof -
  have "sqrt 169 = 13" using real_sqrt_abs [of 13] by simp
  moreover have "sqrt 4 = 2" using real_sqrt_abs [of 2] by simp
  ultimately show ?thesis
    using cosine_similarity_total [of "[3, 4, 12]" "[2]"]
    by (simp add: lessThan_Suc numeral_3_eq_3)
qed

section \<open>Cosine similarity on IEEE doubles\<close>



































text \<open>
  No call of \<open>cosine_similarity\<close> on doubles raises: a sum of squares is never negative,
  so \<open>math.sqrt\<close> accepts it, and the divisor is \<open>1e-8\<close> or more, infinite or NaN, never
  zero. The score is the rounded quotient of the rounded dot product and the rounded
  divisor.
\<close>




section \<open>The id of the stored record\<close>

lemma value10_append: "value10 acc (xs @ ys) = value10 (value10 acc xs) ys"
  by (induction xs arbitrary: acc) simp_all

lemma value10_digits10: "value10 0 (digits10 n) = n"
proof (induction n rule: digits10.induct)
  case (1 n)
  show ?case
  proof (cases "n < 10")
    case True
    then show ?thesis by (simp add: digits10.simps [of n])
  next
    case False
    then have "value10 0 (digits10 n) =
        value10 (value10 0 (digits10 (n div 10))) [48 + n mod 10]"
      by (simp add: digits10.simps [of n] value10_append)
    also have "\<dots> = 10 * (n div 10) + n mod 10"
      using "1.IH" False by simp
    finally show ?thesis by simp
  qed
qed

lemma digits10_range: "d \<in> set (digits10 n) \<Longrightarrow> 48 \<le> d \<and> d \<le> 57"
proof (induction n rule: digits10.induct)
  case (1 n)
  show ?case
  proof (cases "n < 10")
    case True
    with "1.prems" show ?thesis by (simp add: digits10.simps [of n])
  next
    case False
    with "1.prems" have "d \<in> set (digits10 (n div 10)) \<or> d = 48 + n mod 10"
      by (auto simp: digits10.simps [of n])
    then show ?thesis using "1.IH" False by auto
  qed
qed

lemma digits10_nonempty: "digits10 n \<noteq> []"
  by (subst digits10.simps) simp

lemma digits10_inj: "digits10 m = digits10 n \<Longrightarrow> m = n"
  by (metis value10_digits10)

lemma digits10_no_minus: "45 # xs \<noteq> digits10 n"
proof
  assume eq: "45 # xs = digits10 n"
  then have "45 \<in> set (digits10 n)" by (metis list.set_intros(1))
  then have "(48 :: nat) \<le> 45" using digits10_range by blast
  then show False by simp
qed

lemma str_int_inj: "str_int i = str_int j \<Longrightarrow> i = j"
proof -
  assume eq: "str_int i = str_int j"
  show ?thesis
  proof (cases "i < 0"; cases "j < 0")
    assume "i < 0" "j < 0"
    with eq have "nat (- i) = nat (- j)" by (auto simp: str_int_def dest: digits10_inj)
    with \<open>i < 0\<close> \<open>j < 0\<close> show ?thesis by simp
  next
    assume "i < 0" "\<not> j < 0"
    with eq digits10_no_minus show ?thesis by (auto simp: str_int_def)
  next
    assume "\<not> i < 0" "j < 0"
    with eq digits10_no_minus [of _ "nat i"] show ?thesis by (auto simp: str_int_def)
  next
    assume "\<not> i < 0" "\<not> j < 0"
    with eq have "nat i = nat j" by (auto simp: str_int_def dest: digits10_inj)
    with \<open>\<not> i < 0\<close> \<open>\<not> j < 0\<close> show ?thesis by simp
  qed
qed

lemma entry_id_eq_iff: "entry_id stem h1 = entry_id stem h2 \<longleftrightarrow> h1 = h2"
  by (auto simp: entry_id_def dest: str_int_inj)

text \<open>
  Two runs on the same path and the same response send the same id to the collection
  exactly when the two interpreters hash the response to the same number.
\<close>

lemma ingest_ids_eq_iff:
  "ids (ingest lower is_word path_stem hash1 pdf_path response) =
   ids (ingest lower is_word path_stem hash2 pdf_path response)
   \<longleftrightarrow> hash1 response = hash2 response"
  by (simp add: ingest_def Let_def split_beta entry_id_eq_iff)

lemma digits10_small: "n < 10 \<Longrightarrow> digits10 n = [48 + n]"
  by (subst digits10.simps) simp

lemma digits10_large: "\<not> n < 10 \<Longrightarrow> digits10 n = digits10 (n div 10) @ [48 + n mod 10]"
  by (subst digits10.simps) simp

text \<open>
  Claim C3 asks that two runs on identical input give the record the same id. The id
  is built from \<open>hash(response)\<close>. Here are two runs on the path \<open>paper.pdf\<close> and the
  response \<open>density 7.8\<close>, in interpreters whose salted hash gives the response two
  different numbers: the ids differ.
\<close>

theorem entry_id_unstable:
  "ids (ingest ascii_lower ascii_word (\<lambda>p. codepoints ''paper'')
          (\<lambda>s. 4596069200710135518) (codepoints ''paper.pdf'') (codepoints ''density 7.8''))
     = [codepoints ''paper_4596069200710135518'']
   \<and> ids (ingest ascii_lower ascii_word (\<lambda>p. codepoints ''paper'')
          (\<lambda>s. - 1600925533607996387) (codepoints ''paper.pdf'') (codepoints ''density 7.8''))
     = [codepoints ''paper_-1600925533607996387'']
   \<and> ids (ingest ascii_lower ascii_word (\<lambda>p. codepoints ''paper'')
          (\<lambda>s. 4596069200710135518) (codepoints ''paper.pdf'') (codepoints ''density 7.8''))
     \<noteq> ids (ingest ascii_lower ascii_word (\<lambda>p. codepoints ''paper'')
          (\<lambda>s. - 1600925533607996387) (codepoints ''paper.pdf'') (codepoints ''density 7.8''))"
  by (simp add: ingest_def Let_def split_beta entry_id_def str_int_def digits10_small
      digits10_large codepoints_def)

section \<open>The vectorizer on the store\<close>

lemma text_to_vector_call_result:
  assumes t: "lookup h t = Some (StrObj T)" and v: "vocab_value h vr = Some V"
  shows "\<exists>h' vec voc.
           text_to_vector_call lower is_word h t vr = Inr (h', vec, voc) \<and>
           lookup h' vec = Some (FloatListObj (fst (text_to_vector lower is_word T V))) \<and>
           lookup h' voc = Some (StrListObj (snd (text_to_vector lower is_word T V))) \<and>
           take (length h) h' = h"
proof (cases vr)
  case None
  with v have "V = None" by (simp add: vocab_value_def)
  with None t show ?thesis
    by (simp add: text_to_vector_call_def text_to_vector_def vector_over_def alloc_def
        lookup_def Let_def nth_append)
next
  case (Some r)
  with v obtain vs where r: "lookup h r = Some (StrListObj vs)" and V: "V = Some vs"
    by (auto simp: vocab_value_def split: option.splits pyobj.splits)
  from r have "r < length h" "h ! r = StrListObj vs"
    by (auto simp: lookup_def split: if_splits)
  with Some t r V show ?thesis
    by (simp add: text_to_vector_call_def text_to_vector_def vector_over_def alloc_def
        lookup_def Let_def nth_append)
qed

text \<open>
  Claim C6. Take two calls of the vectorizer, in any two stores, on text arguments of
  the same value and vocabulary arguments of the same value (both \<open>None\<close>, or lists with
  the same terms). Both calls return; the vectors they return are equal and the
  vocabularies they return are equal, being the value of \<open>text_to_vector\<close> at the value
  of the arguments; and each call leaves every object that was in its store as it was,
  the text and the vocabulary it was given among them.
\<close>

theorem text_to_vector_call_pure:
  assumes "lookup h1 t1 = Some (StrObj T)" and "lookup h2 t2 = Some (StrObj T)"
    and "vocab_value h1 v1 = Some V" and "vocab_value h2 v2 = Some V"
  shows "\<exists>h1' vec1 voc1 h2' vec2 voc2.
           text_to_vector_call lower is_word h1 t1 v1 = Inr (h1', vec1, voc1) \<and>
           text_to_vector_call lower is_word h2 t2 v2 = Inr (h2', vec2, voc2) \<and>
           lookup h1' vec1 = lookup h2' vec2 \<and> lookup h1' voc1 = lookup h2' voc2 \<and>
           lookup h1' vec1 = Some (FloatListObj (fst (text_to_vector lower is_word T V))) \<and>
           lookup h1' voc1 = Some (StrListObj (snd (text_to_vector lower is_word T V))) \<and>
           take (length h1) h1' = h1 \<and> take (length h2) h2' = h2"
proof -
  from text_to_vector_call_result [OF assms(1) assms(3), of lower is_word]
  obtain h1' vec1 voc1 where 1:
    "text_to_vector_call lower is_word h1 t1 v1 = Inr (h1', vec1, voc1)"
    "lookup h1' vec1 = Some (FloatListObj (fst (text_to_vector lower is_word T V)))"
    "lookup h1' voc1 = Some (StrListObj (snd (text_to_vector lower is_word T V)))"
    "take (length h1) h1' = h1" by blast
  from text_to_vector_call_result [OF assms(2) assms(4), of lower is_word]
  obtain h2' vec2 voc2 where 2:
    "text_to_vector_call lower is_word h2 t2 v2 = Inr (h2', vec2, voc2)"
    "lookup h2' vec2 = Some (FloatListObj (fst (text_to_vector lower is_word T V)))"
    "lookup h2' voc2 = Some (StrListObj (snd (text_to_vector lower is_word T V)))"
    "take (length h2) h2' = h2" by blast
  show ?thesis using 1 2 by simp
qed

text \<open>
  Two stores that hold the text \<open>b a\<close> and the vocabulary \<open>[a, z]\<close> at different
  places, the second next to an unrelated object.
\<close>

theorem text_to_vector_call_pure_witness:
  "\<exists>h1' vec1 voc1 h2' vec2 voc2.
     text_to_vector_call ascii_lower ascii_word
       [StrObj (codepoints ''b a''), StrListObj [codepoints ''a'', codepoints ''z'']]
       0 (Some 1) = Inr (h1', vec1, voc1) \<and>
     text_to_vector_call ascii_lower ascii_word
       [StrListObj [codepoints ''a'', codepoints ''z''], FloatListObj [1, 2],
        StrObj (codepoints ''b a'')]
       2 (Some 0) = Inr (h2', vec2, voc2) \<and>
     lookup h1' vec1 = lookup h2' vec2 \<and> lookup h1' voc1 = lookup h2' voc2 \<and>
     lookup h1' vec1 = Some (FloatListObj (fst (text_to_vector ascii_lower ascii_word
        (codepoints ''b a'') (Some [codepoints ''a'', codepoints ''z''])))) \<and>
     lookup h1' voc1 = Some (StrListObj (snd (text_to_vector ascii_lower ascii_word
        (codepoints ''b a'') (Some [codepoints ''a'', codepoints ''z''])))) \<and>
     take (length [StrObj (codepoints ''b a''),
                   StrListObj [codepoints ''a'', codepoints ''z'']]) h1'
       = [StrObj (codepoints ''b a''), StrListObj [codepoints ''a'', codepoints ''z'']] \<and>
     take (length [StrListObj [codepoints ''a'', codepoints ''z''], FloatListObj [1, 2],
                   StrObj (codepoints ''b a'')]) h2'
       = [StrListObj [codepoints ''a'', codepoints ''z''], FloatListObj [1, 2],
          StrObj (codepoints ''b a'')]"
  by (rule text_to_vector_call_pure) (simp_all add: lookup_def vocab_value_def)

end
